theory Spec2Isabelle
  imports Main "HOL-Library.AList"
begin

section \<open>The service registry (package source, type Records)\<close>

text \<open>
  The registry is the Go value \<^verbatim>\<open>map[string]versions\<close> with
  \<^verbatim>\<open>type versions map[string][]*url.URL\<close>. A Go map is modelled as an association
  list that lists every key once; \<open>map_of\<close> is the lookup, \<open>AList.update\<close> the assignment
  \<^verbatim>\<open>m[k] = v\<close> and \<open>AList.delete\<close> the builtin \<^verbatim>\<open>delete(m, k)\<close>, so that \<open>length\<close> is
  Go's \<^verbatim>\<open>len\<close> of the map. The mutex of the struct guards concurrent callers and has
  no sequential meaning; it is not a field of the model.

  The type \<open>'u\<close> stands for the values the registry stores. In the code they are pointers
  \<^verbatim>\<open>*url.URL\<close> of Go's standard library: \<open>GetRecord\<close> and \<open>Resolve\<close> are defined on
  registries of \<open>'a option\<close>, \<open>None\<close> being the \<^verbatim>\<open>nil\<close> pointer, which \<open>SetRecord\<close> stores like
  any other. \<open>GetRecord\<close> returns Go's pair of a pointer and an error, \<open>None\<close> being \<^verbatim>\<open>nil\<close>
  in both; the pointer it returns on success is the stored entry itself. The method
  \<^verbatim>\<open>String()\<close> of the addresses is the parameter \<open>str\<close> of \<open>RemoveRecord\<close>, a total
  function: a call of \<^verbatim>\<open>String()\<close> that panics is outside the model.
\<close>

datatype Code = ServiceUnresolvable | VersionNotSpecified | VersionUndecidable

record ProxyError =
  Code :: Code
  Message :: string

type_synonym 'u versions = "(string \<times> 'u list) list"

record 'u Records =
  m :: "(string \<times> 'u versions) list"

text \<open>Go's indexing of a map yields the zero value for a missing key: the nil map, the nil slice.\<close>

definition versionsAt :: "(string \<times> 'u versions) list \<Rightarrow> string \<Rightarrow> 'u versions" where
  "versionsAt ms svc = (case map_of ms svc of None \<Rightarrow> [] | Some vs \<Rightarrow> vs)"

definition entriesAt :: "'u versions \<Rightarrow> string \<Rightarrow> 'u list" where
  "entriesAt vs version = (case map_of vs version of None \<Rightarrow> [] | Some entries \<Rightarrow> entries)"

definition NewRecords :: "'u Records" where
  "NewRecords = \<lparr>m = []\<rparr>"

definition ClearRecords :: "'u Records \<Rightarrow> 'u Records" where
  "ClearRecords r = r\<lparr>m := []\<rparr>"

text \<open>The part of \<open>GetRecord\<close> after the block for the empty version.\<close>

definition getVersion :: "'a option versions \<Rightarrow> string \<Rightarrow> string \<Rightarrow> 'a option \<times> ProxyError option" where
  "getVersion vs svc version =
     (case map_of vs version of
        None \<Rightarrow>
          (None, Some \<lparr>Code = ServiceUnresolvable,
             Message = ''Version '' @ version @ '' of the gRPC service '' @ svc @ '' is unresolvable''\<rparr>)
      | Some entries \<Rightarrow>
          if length entries \<noteq> 1 then
            (None, Some \<lparr>Code = VersionUndecidable,
               Message = ''Multiple possible backends found for the gRPC service '' @ svc @
                 ''. Add annotations to distinguish versions''\<rparr>)
          else (entries ! 0, None))"

text \<open>
  With the empty version and \<^verbatim>\<open>len(vs) == 1\<close> the loop over \<open>vs\<close> returns in its first
  round, on the only entry of the map; over a map without entries it would fall through
  to the lookup of the version.
\<close>

definition GetRecord :: "'a option Records \<Rightarrow> string \<Rightarrow> string \<Rightarrow> 'a option \<times> ProxyError option" where
  "GetRecord r svc version =
     (case map_of (m r) svc of
        None \<Rightarrow>
          (None, Some \<lparr>Code = ServiceUnresolvable,
             Message = ''The gRPC service '' @ svc @ '' is unresolvable''\<rparr>)
      | Some vs \<Rightarrow>
          if version = [] then
            (if length vs \<noteq> 1 then
               (None, Some \<lparr>Code = VersionNotSpecified,
                  Message = ''There are multiple version of the gRPC service '' @ svc @
                    '' available. You must specify one''\<rparr>)
             else
               (case vs of
                  [] \<Rightarrow> getVersion vs svc version
                | (v, entries) # rest \<Rightarrow>
                    if length entries \<noteq> 1 then
                      (None, Some \<lparr>Code = VersionUndecidable,
                         Message = ''Multiple possible backends found for the gRPC service '' @ svc @
                           ''. Add annotations to distinguish versions''\<rparr>)
                    else (entries ! 0, None)))
          else getVersion vs svc version)"

text \<open>
  \<open>SetRecord\<close> in its three steps: the map of the service is made if the service is
  missing, the slice of the version is made if it is nil, the address is appended. A slice
  that is present is never nil in the model; Go would replace a nil slice stored under the
  version by an empty one, which has the same entries.
\<close>

definition SetRecord :: "'u Records \<Rightarrow> string \<Rightarrow> string \<Rightarrow> 'u \<Rightarrow> bool \<times> 'u Records" where
  "SetRecord r svc version u =
     (let m1 = (case map_of (m r) svc of
                  None \<Rightarrow> AList.update svc [] (m r)
                | Some vs \<Rightarrow> m r);
          m2 = (case map_of (versionsAt m1 svc) version of
                  None \<Rightarrow> AList.update svc (AList.update version [] (versionsAt m1 svc)) m1
                | Some entries \<Rightarrow> m1);
          m3 = AList.update svc
                 (AList.update version (entriesAt (versionsAt m2 svc) version @ [u]) (versionsAt m2 svc)) m2
      in (True, r\<lparr>m := m3\<rparr>))"

text \<open>
  \<open>RemoveRecord\<close>: \<open>vs\<close> is a reference to the map stored under the service, so the
  assignment and the deletion on \<open>vs\<close> are written back under \<open>svc\<close>. The loop that keeps
  the entries with another string form is \<open>filter\<close>.
\<close>

definition RemoveRecord :: "('u \<Rightarrow> string) \<Rightarrow> 'u Records \<Rightarrow> string \<Rightarrow> string \<Rightarrow> 'u \<Rightarrow> 'u Records" where
  "RemoveRecord str r svc version u =
     (case map_of (m r) svc of
        None \<Rightarrow> r
      | Some vs \<Rightarrow>
          (case map_of vs version of
             None \<Rightarrow> r
           | Some entries \<Rightarrow>
               (let newEntries = filter (\<lambda>e. str e \<noteq> str u) entries;
                    vs1 = AList.update version newEntries vs;
                    vs2 = (if length newEntries = 0 then AList.delete version vs1 else vs1);
                    m1 = AList.update svc vs2 (m r)
                in if length vs2 = 0 then r\<lparr>m := AList.delete svc m1\<rparr> else r\<lparr>m := m1\<rparr>)))"

definition IsServiceUnique :: "'u Records \<Rightarrow> string \<Rightarrow> bool" where
  "IsServiceUnique r svc = (length (versionsAt (m r) svc) = 1)"

definition RecordExists :: "'u Records \<Rightarrow> string \<Rightarrow> string \<Rightarrow> bool" where
  "RecordExists r svc version =
     (case map_of (m r) svc of
        None \<Rightarrow> False
      | Some vs \<Rightarrow> (case map_of vs version of None \<Rightarrow> False | Some entries \<Rightarrow> length entries > 0))"

text \<open>Go's expression \<^verbatim>\<open>r.m[svc][version]\<close>: the addresses stored for a pair, none if a key is missing.\<close>

definition addresses :: "'u Records \<Rightarrow> string \<Rightarrow> string \<Rightarrow> 'u list" where
  "addresses r svc version = entriesAt (versionsAt (m r) svc) version"

subsection \<open>Loading the registry from a mapping file\<close>

text \<open>
  \<open>NewRecordsFromYAML\<close> opens the file, decodes it into a
  \<^verbatim>\<open>map[string]map[string]string\<close> and parses every address. The three library calls
  \<^verbatim>\<open>os.Open\<close>, \<^verbatim>\<open>yaml.Decoder.Decode\<close> and \<^verbatim>\<open>url.Parse\<close> are the parameters
  \<open>osOpen\<close>, \<open>decode\<close> and \<open>parse\<close>; each returns its error (\<open>Inl\<close>) or its value.
  The two nested loops return at the first address that does not parse; the decoded map is
  an association list, visited in its order.
\<close>

type_synonym error = string

type_synonym rawMapping = "(string \<times> (string \<times> string) list) list"

fun setVersions ::
  "(string \<Rightarrow> error + 'u) \<Rightarrow> 'u Records \<Rightarrow> string \<Rightarrow> (string \<times> string) list \<Rightarrow> error + 'u Records" where
  "setVersions parse r service [] = Inr r"
| "setVersions parse r service ((version, rawurl) # rest) =
     (case parse rawurl of
        Inl e \<Rightarrow> Inl e
      | Inr u \<Rightarrow> setVersions parse (snd (SetRecord r service version u)) service rest)"

fun setServices :: "(string \<Rightarrow> error + 'u) \<Rightarrow> 'u Records \<Rightarrow> rawMapping \<Rightarrow> error + 'u Records" where
  "setServices parse r [] = Inr r"
| "setServices parse r ((service, versions) # rest) =
     (case setVersions parse r service versions of
        Inl e \<Rightarrow> Inl e
      | Inr r' \<Rightarrow> setServices parse r' rest)"

definition NewRecordsFromYAML ::
  "(string \<Rightarrow> error + 'f) \<Rightarrow> ('f \<Rightarrow> error + rawMapping) \<Rightarrow> (string \<Rightarrow> error + 'u) \<Rightarrow> string
     \<Rightarrow> error + 'u Records" where
  "NewRecordsFromYAML osOpen decode parse yamlFile =
     (let r = NewRecords in
      case osOpen yamlFile of
        Inl e \<Rightarrow> Inl e
      | Inr f \<Rightarrow>
          (case decode f of
             Inl e \<Rightarrow> Inl e
           | Inr rawMapping \<Rightarrow> setServices parse r rawMapping))"

subsection \<open>The static resolver (type Static)\<close>

text \<open>
  The logger of \<open>Static\<close> only receives messages: \<open>NewStatic\<close> and \<open>Resolve\<close> write one
  line to it on their error branch and go on as below. The model keeps the registry.
\<close>

record 'u Static =
  records :: "'u Records"

definition NewStatic ::
  "(string \<Rightarrow> error + 'f) \<Rightarrow> ('f \<Rightarrow> error + rawMapping) \<Rightarrow> (string \<Rightarrow> error + 'u) \<Rightarrow> string
     \<Rightarrow> 'u Static" where
  "NewStatic osOpen decode parse mappingFile =
     (case NewRecordsFromYAML osOpen decode parse mappingFile of
        Inl e \<Rightarrow> \<lparr>records = NewRecords\<rparr>
      | Inr r \<Rightarrow> \<lparr>records = r\<rparr>)"

definition Resolve :: "'a option Static \<Rightarrow> string \<Rightarrow> string \<Rightarrow> 'a option \<times> ProxyError option" where
  "Resolve l svc version =
     (case GetRecord (records l) svc version of
        (r, Some e) \<Rightarrow> (None, Some e)
      | (r, None) \<Rightarrow> (r, None))"

subsection \<open>Sequences of calls on the registry\<close>

text \<open>
  The mutating calls of the registry, and the registry they leave when made one after the
  other on the empty registry of \<open>NewRecords\<close>.
\<close>

datatype 'u registry_call =
    CallSetRecord string string 'u
  | CallRemoveRecord string string 'u
  | CallClearRecords

fun do_call :: "('u \<Rightarrow> string) \<Rightarrow> 'u Records \<Rightarrow> 'u registry_call \<Rightarrow> 'u Records" where
  "do_call str r (CallSetRecord svc version u) = snd (SetRecord r svc version u)"
| "do_call str r (CallRemoveRecord svc version u) = RemoveRecord str r svc version u"
| "do_call str r CallClearRecords = ClearRecords r"

definition after_calls :: "('u \<Rightarrow> string) \<Rightarrow> 'u registry_call list \<Rightarrow> 'u Records" where
  "after_calls str cs = foldl (do_call str) NewRecords cs"

text \<open>
  The property the pruning of \<open>RemoveRecord\<close> keeps: every service of the registry has a
  version and every version has an address.
\<close>

definition filled :: "'u versions \<Rightarrow> bool" where
  "filled vs = (vs \<noteq> [] \<and> list_all (\<lambda>(version, entries). entries \<noteq> []) vs)"

definition pruned :: "'u Records \<Rightarrow> bool" where
  "pruned r = list_all (\<lambda>(svc, vs). filled vs) (m r)"

text \<open>The association lists stand for Go maps: no key is listed twice.\<close>

definition keys_once :: "'u Records \<Rightarrow> bool" where
  "keys_once r =
     (distinct (map fst (m r)) \<and> list_all (\<lambda>(svc, vs). distinct (map fst vs)) (m r))"

text \<open>No address that the registry stores is the \<^verbatim>\<open>nil\<close> pointer.\<close>

definition no_nil_address :: "'a option Records \<Rightarrow> bool" where
  "no_nil_address r =
     list_all (\<lambda>(svc, vs). list_all (\<lambda>(version, entries). None \<notin> set entries) vs) (m r)"

section \<open>The dynamic client (package backend, type Client)\<close>

text \<open>
  \<^verbatim>\<open>client.go\<close> drives collaborators that live in other files of its package: the
  connection, the reflection client, the descriptors, the messages and the stub. Their
  values are opaque handles here, a pointer is an \<open>option\<close> with \<open>None\<close> for \<^verbatim>\<open>nil\<close>,
  and their functions are the fields of the record \<open>backend\<close>, a parameter of every
  method of the client. Each function returns what the Go function returns: a pointer, an
  error, or both. \<^verbatim>\<open>unmarshalJSON\<close> fills the message it is called on, so it returns the
  message as well. The collaborators are total functions: a call that panics is outside
  the model.

  The field \<open>trace\<close> is not a field of the Go struct. It lists, in order, the calls the
  client has made to its collaborators, which is how the model shows that a connection was
  dialled or closed.
\<close>

type_synonym Context = nat
type_synonym target = string
type_synonym bytes = string
type_synonym Metadata = "(string \<times> string list) list"
type_synonym clientConn = nat
type_synonym reflectionClient = nat
type_synonym serviceDescriptor = nat
type_synonym methodDescriptor = nat
type_synonym messageDescriptor = nat
type_synonym message = string
type_synonym stub = nat

record backend =
  pkg_newClientConn :: "Context \<Rightarrow> target \<Rightarrow> clientConn option \<times> error option"
  clientConn_close :: "clientConn option \<Rightarrow> error option"
  pkg_newReflectionClient :: "clientConn option \<Rightarrow> reflectionClient option"
  reflectionClient_resolveService ::
    "reflectionClient option \<Rightarrow> Context \<Rightarrow> string \<Rightarrow> serviceDescriptor option \<times> error option"
  serviceDescriptor_findMethodByName ::
    "serviceDescriptor option \<Rightarrow> string \<Rightarrow> methodDescriptor option \<times> error option"
  methodDescriptor_getInputType :: "methodDescriptor option \<Rightarrow> messageDescriptor option"
  methodDescriptor_getOutputType :: "methodDescriptor option \<Rightarrow> messageDescriptor option"
  messageDescriptor_newMessage :: "messageDescriptor option \<Rightarrow> message option"
  message_unmarshalJSON :: "message option \<Rightarrow> bytes \<Rightarrow> message option \<times> error option"
  message_marshalJSON :: "message option \<Rightarrow> bytes option \<times> error option"
  pkg_newStub :: "clientConn option \<Rightarrow> stub option"
  stub_invokeRPC ::
    "stub option \<Rightarrow> Context \<Rightarrow> methodDescriptor option \<Rightarrow> message option \<Rightarrow> Metadata
       \<Rightarrow> message option \<times> error option"

datatype backend_call =
    NewClientConnCall Context target
  | CloseCall "clientConn option"
  | NewReflectionClientCall "clientConn option"
  | ResolveServiceCall "reflectionClient option" string
  | FindMethodByNameCall "serviceDescriptor option" string
  | NewInputMessageCall "methodDescriptor option"
  | NewOutputMessageCall "methodDescriptor option"
  | UnmarshalJSONCall "message option" bytes
  | MarshalJSONCall "message option"
  | NewStubCall "clientConn option"
  | InvokeRPCCall "stub option" "methodDescriptor option" "message option" Metadata

record Client =
  clientConn :: "clientConn option"
  reflectionClient :: "reflectionClient option"
  serviceDescriptor :: "serviceDescriptor option"
  methodDescriptor :: "methodDescriptor option"
  InputMessage :: "message option"
  OutputMessage :: "message option"
  stub :: "stub option"
  err :: "error option"
  trace :: "backend_call list"

definition Err :: "Client \<Rightarrow> error option" where
  "Err c = err c"

text \<open>\<open>NewClient\<close> points every field to a zero-valued struct: the handle 0, the empty message.\<close>

definition NewClient :: Client where
  "NewClient =
     \<lparr>clientConn = Some 0, reflectionClient = Some 0, serviceDescriptor = Some 0,
      methodDescriptor = Some 0, InputMessage = Some [], OutputMessage = Some [],
      stub = Some 0, err = None, trace = []\<rparr>"

definition Connect :: "backend \<Rightarrow> Context \<Rightarrow> target \<Rightarrow> Client \<Rightarrow> Client" where
  "Connect b ctx tgt c =
     (if err c \<noteq> None then c
      else case pkg_newClientConn b ctx tgt of
             (cc, e) \<Rightarrow> c\<lparr>clientConn := cc, err := e, trace := trace c @ [NewClientConnCall ctx tgt]\<rparr>)"

definition CloseConn :: "backend \<Rightarrow> Client \<Rightarrow> Client" where
  "CloseConn b c =
     (if err c \<noteq> None then c
      else c\<lparr>err := clientConn_close b (clientConn c),
             trace := trace c @ [CloseCall (clientConn c)]\<rparr>)"

definition newReflectionClient :: "backend \<Rightarrow> Client \<Rightarrow> Client" where
  "newReflectionClient b c =
     (if err c \<noteq> None then c
      else c\<lparr>reflectionClient := pkg_newReflectionClient b (clientConn c),
             trace := trace c @ [NewReflectionClientCall (clientConn c)]\<rparr>)"

definition resolveService :: "backend \<Rightarrow> Context \<Rightarrow> string \<Rightarrow> Client \<Rightarrow> Client" where
  "resolveService b ctx serviceName c =
     (let c1 = newReflectionClient b c in
      if err c1 \<noteq> None then c1
      else case reflectionClient_resolveService b (reflectionClient c1) ctx serviceName of
             (sd, e) \<Rightarrow>
               c1\<lparr>err := e, serviceDescriptor := sd,
                  trace := trace c1 @ [ResolveServiceCall (reflectionClient c1) serviceName]\<rparr>)"

definition findMethodByName :: "backend \<Rightarrow> string \<Rightarrow> Client \<Rightarrow> Client" where
  "findMethodByName b name c =
     (if err c \<noteq> None then c
      else case serviceDescriptor_findMethodByName b (serviceDescriptor c) name of
             (md, e) \<Rightarrow>
               c\<lparr>err := e, methodDescriptor := md,
                 trace := trace c @ [FindMethodByNameCall (serviceDescriptor c) name]\<rparr>)"

text \<open>
  \<open>loadDescriptors\<close> checks the error once, on entry: the two messages are made from
  the method descriptor whatever the two calls before them have left in \<open>err\<close>.
\<close>

definition loadDescriptors :: "backend \<Rightarrow> Context \<Rightarrow> string \<Rightarrow> string \<Rightarrow> Client \<Rightarrow> Client" where
  "loadDescriptors b ctx serviceName methodName c =
     (if err c \<noteq> None then c
      else
        let c1 = resolveService b ctx serviceName c;
            c2 = findMethodByName b methodName c1;
            c3 = c2\<lparr>InputMessage :=
                      messageDescriptor_newMessage b (methodDescriptor_getInputType b (methodDescriptor c2)),
                    trace := trace c2 @ [NewInputMessageCall (methodDescriptor c2)]\<rparr>;
            c4 = c3\<lparr>OutputMessage :=
                      messageDescriptor_newMessage b (methodDescriptor_getOutputType b (methodDescriptor c3)),
                    trace := trace c3 @ [NewOutputMessageCall (methodDescriptor c3)]\<rparr>
        in c4)"

definition unmarshalInputMessage :: "backend \<Rightarrow> bytes \<Rightarrow> Client \<Rightarrow> Client" where
  "unmarshalInputMessage b bs c =
     (if err c \<noteq> None then c
      else case message_unmarshalJSON b (InputMessage c) bs of
             (msg, e) \<Rightarrow>
               c\<lparr>InputMessage := msg, err := e,
                 trace := trace c @ [UnmarshalJSONCall (InputMessage c) bs]\<rparr>)"

definition marshalOutputMessage :: "backend \<Rightarrow> Client \<Rightarrow> bytes option \<times> Client" where
  "marshalOutputMessage b c =
     (if err c \<noteq> None then (None, c)
      else case message_marshalJSON b (InputMessage c) of
             (bs, e) \<Rightarrow> (bs, c\<lparr>err := e, trace := trace c @ [MarshalJSONCall (InputMessage c)]\<rparr>))"

definition newStub :: "backend \<Rightarrow> Client \<Rightarrow> Client" where
  "newStub b c =
     (if err c \<noteq> None then c
      else c\<lparr>stub := pkg_newStub b (clientConn c), trace := trace c @ [NewStubCall (clientConn c)]\<rparr>)"

definition invokeRPC :: "backend \<Rightarrow> Context \<Rightarrow> Metadata \<Rightarrow> Client \<Rightarrow> Client" where
  "invokeRPC b ctx md c =
     (let c1 = newStub b c in
      if err c1 \<noteq> None then c1
      else case stub_invokeRPC b (stub c1) ctx (methodDescriptor c1) (InputMessage c1) md of
             (msg, e) \<Rightarrow>
               c1\<lparr>err := e, OutputMessage := msg,
                  trace := trace c1 @
                    [InvokeRPCCall (stub c1) (methodDescriptor c1) (InputMessage c1) md]\<rparr>)"

text \<open>\<open>Call\<close> returns the response and the error, and leaves the client as its second component.\<close>

definition Call ::
  "backend \<Rightarrow> Context \<Rightarrow> string \<Rightarrow> string \<Rightarrow> bytes \<Rightarrow> Metadata \<Rightarrow> Client
     \<Rightarrow> (bytes option \<times> error option) \<times> Client" where
  "Call b ctx serviceName methodName msg md c =
     (let c1 = loadDescriptors b ctx serviceName methodName c;
          c2 = unmarshalInputMessage b msg c1;
          c3 = invokeRPC b ctx md c2
      in case marshalOutputMessage b c3 of
           (response, c4) \<Rightarrow> ((response, err c4), c4))"

subsection \<open>Sequences of stages\<close>

text \<open>
  A stage is one call of a method of the client that checks the sticky error. \<open>run_stages\<close>
  makes the calls of a list one after the other; the bytes that \<open>marshalOutputMessage\<close>
  returns are dropped there.
\<close>

datatype stage =
    StConnect Context target
  | StResolveService Context string
  | StFindMethodByName string
  | StLoadDescriptors Context string string
  | StUnmarshalInputMessage bytes
  | StInvokeRPC Context Metadata
  | StMarshalOutputMessage
  | StCloseConn

fun run_stage :: "backend \<Rightarrow> stage \<Rightarrow> Client \<Rightarrow> Client" where
  "run_stage b (StConnect ctx tgt) c = Connect b ctx tgt c"
| "run_stage b (StResolveService ctx serviceName) c = resolveService b ctx serviceName c"
| "run_stage b (StFindMethodByName name) c = findMethodByName b name c"
| "run_stage b (StLoadDescriptors ctx serviceName methodName) c =
     loadDescriptors b ctx serviceName methodName c"
| "run_stage b (StUnmarshalInputMessage bs) c = unmarshalInputMessage b bs c"
| "run_stage b (StInvokeRPC ctx md) c = invokeRPC b ctx md c"
| "run_stage b StMarshalOutputMessage c = snd (marshalOutputMessage b c)"
| "run_stage b StCloseConn c = CloseConn b c"

fun run_stages :: "backend \<Rightarrow> stage list \<Rightarrow> Client \<Rightarrow> Client" where
  "run_stages b [] c = c"
| "run_stages b (s # ss) c = run_stages b ss (run_stage b s c)"

subsection \<open>Two backends\<close>

text \<open>
  \<open>echo_backend\<close> is a backend on which every call succeeds: a message is its JSON text,
  and the remote method answers \<open>pong\<close> to every request. On \<open>no_reflection_backend\<close>
  the dial succeeds and the reflection request fails.
\<close>

definition echo_backend :: backend where
  "echo_backend =
     \<lparr>pkg_newClientConn = (\<lambda>ctx tgt. (Some 1, None)),
      clientConn_close = (\<lambda>cc. None),
      pkg_newReflectionClient = (\<lambda>cc. Some 1),
      reflectionClient_resolveService = (\<lambda>rc ctx serviceName. (Some 1, None)),
      serviceDescriptor_findMethodByName = (\<lambda>sd name. (Some 1, None)),
      methodDescriptor_getInputType = (\<lambda>md. Some 1),
      methodDescriptor_getOutputType = (\<lambda>md. Some 2),
      messageDescriptor_newMessage = (\<lambda>d. Some []),
      message_unmarshalJSON = (\<lambda>msg bs. (Some bs, None)),
      message_marshalJSON = (\<lambda>msg. (msg, None)),
      pkg_newStub = (\<lambda>cc. Some 1),
      stub_invokeRPC = (\<lambda>st ctx md msg meta. (Some ''pong'', None))\<rparr>"

definition no_reflection_backend :: backend where
  "no_reflection_backend =
     echo_backend\<lparr>reflectionClient_resolveService :=
       (\<lambda>rc ctx serviceName. (None, Some ''service not found''))\<rparr>"

definition after_failed_reflection :: Client where
  "after_failed_reflection =
     resolveService no_reflection_backend 0 ''Echo'' (Connect no_reflection_backend 0 ''echo:5000'' NewClient)"

section \<open>Example inputs\<close>

text \<open>
  The registry of the mapping \<^verbatim>\<open>{a: {v1: http://a.v1, v2: http://a.v2}, b: {v1: http://b.v1}}\<close>,
  a registry in which one address was registered twice, and a file system with a valid
  mapping file, a file that is not a mapping and a mapping with an address that does not
  parse. An address is a pointer to its own string form here; \<open>example_String\<close> is only
  applied to addresses that are not nil.
\<close>

definition example_String :: "string option \<Rightarrow> string" where
  "example_String p = (case p of None \<Rightarrow> [] | Some s \<Rightarrow> s)"

definition example_registry :: "string option Records" where
  "example_registry =
     after_calls example_String
       [CallSetRecord ''a'' ''v1'' (Some ''http://a.v1''),
        CallSetRecord ''a'' ''v2'' (Some ''http://a.v2''),
        CallSetRecord ''b'' ''v1'' (Some ''http://b.v1'')]"

definition twice_registered :: "string option Records" where
  "twice_registered =
     after_calls example_String
       [CallSetRecord ''a'' ''v1'' (Some ''http://a.v1''),
        CallSetRecord ''a'' ''v1'' (Some ''http://a.v1'')]"

definition example_osOpen :: "string \<Rightarrow> error + string" where
  "example_osOpen name =
     (if name = ''valid.yaml'' \<or> name = ''invalid.yaml'' \<or> name = ''badurl.yaml'' then Inr name
      else Inl ''no such file or directory'')"

definition example_decode :: "string \<Rightarrow> error + rawMapping" where
  "example_decode f =
     (if f = ''valid.yaml'' then
        Inr [(''a'', [(''v1'', ''http://a.v1''), (''v2'', ''http://a.v2'')]),
             (''b'', [(''v1'', ''http://b.v1'')])]
      else if f = ''badurl.yaml'' then
        Inr [(''a'', [(''v1'', ''http://a.v1''), (''v2'', '':a.v2'')])]
      else Inl ''cannot unmarshal'')"

definition example_parse :: "string \<Rightarrow> error + string option" where
  "example_parse rawurl =
     (case rawurl of
        [] \<Rightarrow> Inr (Some rawurl)
      | ch # rest \<Rightarrow>
          if ch = CHR '':'' then Inl ''missing protocol scheme'' else Inr (Some rawurl))"

section \<open>Association lists\<close>

lemma versionsAt_update [simp]:
  "versionsAt (AList.update k v ms) k' = (if k' = k then v else versionsAt ms k')"
  by (simp add: versionsAt_def update_conv')

lemma entriesAt_update [simp]:
  "entriesAt (AList.update k v vs) k' = (if k' = k then v else entriesAt vs k')"
  by (simp add: entriesAt_def update_conv')


lemma list_all_update: "list_all P al \<Longrightarrow> P (k, v) \<Longrightarrow> list_all P (AList.update k v al)"
  by (induction al) auto

lemma list_all_delete: "list_all P al \<Longrightarrow> list_all P (AList.delete k al)"
  by (induction al) auto

lemma list_all_map_of: "list_all P al \<Longrightarrow> map_of al k = Some v \<Longrightarrow> P (k, v)"
  by (auto simp: list_all_iff dest: map_of_SomeD)


section \<open>The registry after SetRecord and RemoveRecord\<close>

lemma SetRecord_m:
  "m (snd (SetRecord r svc version u)) =
     AList.update svc
       (AList.update version (addresses r svc version @ [u]) (versionsAt (m r) svc))
       (m r)"
  by (auto simp: SetRecord_def addresses_def Let_def versionsAt_def entriesAt_def update_conv'
      split: option.splits)

lemma addresses_SetRecord:
  "addresses (snd (SetRecord r svc version u)) svc' version' =
     (if svc' = svc \<and> version' = version then addresses r svc version @ [u]
      else addresses r svc' version')"
  unfolding addresses_def[of "snd (SetRecord r svc version u)"] SetRecord_m
  by (simp add: addresses_def)

lemma map_of_SetRecord_svc:
  "map_of (m (snd (SetRecord r svc version u))) svc =
     Some (AList.update version (addresses r svc version @ [u]) (versionsAt (m r) svc))"
  by (simp add: SetRecord_m update_conv')

lemma RemoveRecord_m:
  assumes "map_of (m r) svc = Some vs" and "map_of vs version = Some entries"
  shows "m (RemoveRecord str r svc version u) =
          (let newEntries = filter (\<lambda>e. str e \<noteq> str u) entries in
           if newEntries = [] then
             (if AList.delete version vs = [] then AList.delete svc (m r)
              else AList.update svc (AList.delete version vs) (m r))
           else AList.update svc (AList.update version newEntries vs) (m r))"
  using assms
  by (simp add: RemoveRecord_def Let_def delete_update_same)

lemma RemoveRecord_unknown:
  "map_of (m r) svc = None \<Longrightarrow> RemoveRecord str r svc version u = r"
  "map_of (versionsAt (m r) svc) version = None \<Longrightarrow> RemoveRecord str r svc version u = r"
  by (auto simp: RemoveRecord_def versionsAt_def split: option.splits)








section \<open>What every sequence of calls keeps\<close>

lemma pruned_NewRecords: "pruned NewRecords"
  by (simp add: pruned_def NewRecords_def)

lemma pruned_ClearRecords: "pruned (ClearRecords r)"
  by (simp add: pruned_def ClearRecords_def)

lemma pruned_versionsAt:
  assumes "pruned r"
  shows "list_all (\<lambda>(version, entries). entries \<noteq> []) (versionsAt (m r) svc)"
proof (cases "map_of (m r) svc")
  case None
  then show ?thesis by (simp add: versionsAt_def)
next
  case (Some vs)
  with assms have "filled vs"
    unfolding pruned_def by (auto dest: list_all_map_of)
  with Some show ?thesis by (simp add: versionsAt_def filled_def)
qed

lemma pruned_SetRecord:
  assumes "pruned r"
  shows "pruned (snd (SetRecord r svc version u))"
proof -
  let ?vs = "AList.update version (addresses r svc version @ [u]) (versionsAt (m r) svc)"
  have "filled ?vs"
    unfolding filled_def
    by (simp add: list_all_update pruned_versionsAt[OF assms])
  with assms show ?thesis
    unfolding pruned_def SetRecord_m by (simp add: list_all_update)
qed

lemma pruned_RemoveRecord:
  assumes "pruned r"
  shows "pruned (RemoveRecord str r svc version u)"
proof (cases "map_of (m r) svc")
  case None
  with assms show ?thesis by (simp add: RemoveRecord_unknown)
next
  case (Some vs)
  note vs = this
  then have pvs: "list_all (\<lambda>(version, entries). entries \<noteq> []) vs"
    using pruned_versionsAt[OF assms, of svc] by (simp add: versionsAt_def)
  show ?thesis
  proof (cases "map_of vs version")
    case None
    with vs assms show ?thesis by (simp add: RemoveRecord_unknown versionsAt_def)
  next
    case (Some entries)
    let ?ne = "filter (\<lambda>e. str e \<noteq> str u) entries"
    have d: "AList.delete version vs \<noteq> [] \<Longrightarrow> filled (AList.delete version vs)"
      using pvs by (simp add: filled_def list_all_delete)
    have up: "?ne \<noteq> [] \<Longrightarrow> filled (AList.update version ?ne vs)"
      using pvs by (simp add: filled_def list_all_update)
    from assms have "list_all (\<lambda>(svc, vs). filled vs) (m r)"
      by (simp add: pruned_def)
    then show ?thesis
      unfolding pruned_def RemoveRecord_m[OF vs Some] Let_def
      using d up by (simp add: list_all_update list_all_delete)
  qed
qed

lemma pruned_do_call: "pruned r \<Longrightarrow> pruned (do_call str r c)"
  by (cases c) (simp_all add: pruned_SetRecord pruned_RemoveRecord pruned_ClearRecords)

lemma pruned_foldl: "pruned r \<Longrightarrow> pruned (foldl (do_call str) r cs)"
  by (induction cs arbitrary: r) (simp_all add: pruned_do_call)

lemma pruned_after_calls: "pruned (after_calls str cs)"
  unfolding after_calls_def by (rule pruned_foldl) (rule pruned_NewRecords)

lemma keys_once_versionsAt:
  assumes "keys_once r"
  shows "distinct (map fst (versionsAt (m r) svc))"
proof (cases "map_of (m r) svc")
  case None
  then show ?thesis by (simp add: versionsAt_def)
next
  case (Some vs)
  with assms have "distinct (map fst vs)"
    unfolding keys_once_def by (auto dest: list_all_map_of)
  with Some show ?thesis by (simp add: versionsAt_def)
qed

lemma keys_once_SetRecord:
  assumes "keys_once r"
  shows "keys_once (snd (SetRecord r svc version u))"
  using assms keys_once_versionsAt[OF assms, of svc]
  unfolding keys_once_def SetRecord_m
  by (simp add: distinct_update list_all_update)

lemma keys_once_RemoveRecord:
  assumes "keys_once r"
  shows "keys_once (RemoveRecord str r svc version u)"
proof (cases "map_of (m r) svc")
  case None
  with assms show ?thesis by (simp add: RemoveRecord_unknown)
next
  case (Some vs)
  note vs = this
  then have dvs: "distinct (map fst vs)"
    using keys_once_versionsAt[OF assms, of svc] by (simp add: versionsAt_def)
  show ?thesis
  proof (cases "map_of vs version")
    case None
    with vs assms show ?thesis by (simp add: RemoveRecord_unknown versionsAt_def)
  next
    case (Some entries)
    show ?thesis
      using assms dvs
      unfolding keys_once_def RemoveRecord_m[OF vs Some] Let_def
      by (simp add: distinct_update distinct_delete list_all_update list_all_delete)
  qed
qed

lemma keys_once_do_call: "keys_once r \<Longrightarrow> keys_once (do_call str r c)"
  by (cases c)
    (simp_all add: keys_once_SetRecord keys_once_RemoveRecord, simp add: keys_once_def ClearRecords_def)

lemma keys_once_foldl: "keys_once r \<Longrightarrow> keys_once (foldl (do_call str) r cs)"
  by (induction cs arbitrary: r) (simp_all add: keys_once_do_call)

lemma keys_once_after_calls: "keys_once (after_calls str cs)"
  unfolding after_calls_def
  by (rule keys_once_foldl) (simp add: keys_once_def NewRecords_def)

lemma versions_listed_once: "distinct (map fst vs) \<Longrightarrow> length vs = card (dom (map_of vs))"
proof -
  assume d: "distinct (map fst vs)"
  have "card (dom (map_of vs)) = card (set (map fst vs))"
    by (simp add: dom_map_of_conv_image_fst)
  also have "\<dots> = length (map fst vs)"
    using d by (rule distinct_card)
  finally show ?thesis by simp
qed

lemma setVersions_keeps:
  assumes "\<And>r svc version u. P r \<Longrightarrow> P (snd (SetRecord r svc version u))"
  shows "P r \<Longrightarrow> setVersions parse r service vs = Inr r' \<Longrightarrow> P r'"
proof (induction vs arbitrary: r)
  case Nil
  then show ?case by simp
next
  case (Cons p vs)
  obtain version rawurl where p: "p = (version, rawurl)" by (cases p)
  show ?case
  proof (cases "parse rawurl")
    case (Inl e)
    with Cons.prems p show ?thesis by simp
  next
    case (Inr u)
    with Cons.prems p have "setVersions parse (snd (SetRecord r service version u)) service vs = Inr r'"
      by simp
    moreover have "P (snd (SetRecord r service version u))"
      using Cons.prems(1) by (rule assms)
    ultimately show ?thesis by (rule Cons.IH[rotated])
  qed
qed

lemma setServices_keeps:
  assumes "\<And>r svc version u. P r \<Longrightarrow> P (snd (SetRecord r svc version u))"
  shows "P r \<Longrightarrow> setServices parse r raw = Inr r' \<Longrightarrow> P r'"
proof (induction raw arbitrary: r)
  case Nil
  then show ?case by simp
next
  case (Cons p raw)
  obtain service vs where p: "p = (service, vs)" by (cases p)
  show ?case
  proof (cases "setVersions parse r service vs")
    case (Inl e)
    with Cons.prems p show ?thesis by simp
  next
    case (Inr r1)
    with Cons.prems p have "setServices parse r1 raw = Inr r'" by simp
    moreover have "P r1"
      using assms Cons.prems(1) Inr by (rule setVersions_keeps)
    ultimately show ?thesis by (rule Cons.IH[rotated])
  qed
qed

lemma keys_once_NewRecords: "keys_once NewRecords"
  by (simp add: keys_once_def NewRecords_def)

lemma NewStatic_registry:
  "pruned (records (NewStatic osOpen decode parse mappingFile))
   \<and> keys_once (records (NewStatic osOpen decode parse mappingFile))"
proof (cases "NewRecordsFromYAML osOpen decode parse mappingFile")
  case (Inl e)
  then show ?thesis
    by (simp add: NewStatic_def pruned_NewRecords keys_once_NewRecords)
next
  case (Inr r)
  then obtain raw where s: "setServices parse NewRecords raw = Inr r"
    by (auto simp: NewRecordsFromYAML_def split: sum.splits)
  have "pruned r"
    by (rule setServices_keeps[where P = pruned, OF pruned_SetRecord pruned_NewRecords s])
  moreover have "keys_once r"
    by (rule setServices_keeps[where P = keys_once, OF keys_once_SetRecord keys_once_NewRecords s])
  ultimately show ?thesis
    using Inr by (simp add: NewStatic_def)
qed

section \<open>Loading a mapping file that fails\<close>

lemma setVersions_fails:
  "(version, rawurl) \<in> set vs \<Longrightarrow> isl (parse rawurl) \<Longrightarrow> isl (setVersions parse r service vs)"
proof (induction vs arbitrary: r)
  case Nil
  then show ?case by simp
next
  case (Cons p vs)
  obtain version' rawurl' where p: "p = (version', rawurl')" by (cases p)
  show ?case
  proof (cases "parse rawurl'")
    case (Inl e)
    with p show ?thesis by simp
  next
    case (Inr u)
    with Cons.prems p have "(version, rawurl) \<in> set vs" by auto
    then have "isl (setVersions parse (snd (SetRecord r service version' u)) service vs)"
      using Cons.prems(2) by (rule Cons.IH)
    with p Inr show ?thesis by simp
  qed
qed

lemma setServices_fails:
  "(service, vs) \<in> set raw \<Longrightarrow> (version, rawurl) \<in> set vs \<Longrightarrow> isl (parse rawurl) \<Longrightarrow>
     isl (setServices parse r raw)"
proof (induction raw arbitrary: r)
  case Nil
  then show ?case by simp
next
  case (Cons p raw)
  obtain service' vs' where p: "p = (service', vs')" by (cases p)
  show ?case
  proof (cases "setVersions parse r service' vs'")
    case (Inl e)
    with p show ?thesis by simp
  next
    case (Inr r')
    have "(service, vs) \<noteq> (service', vs')"
    proof
      assume "(service, vs) = (service', vs')"
      with Cons.prems have "isl (setVersions parse r service' vs')"
        by (auto intro: setVersions_fails)
      with Inr show False by simp
    qed
    with Cons.prems p have "(service, vs) \<in> set raw" by auto
    then have "isl (setServices parse r' raw)"
      using Cons.prems(2,3) by (rule Cons.IH)
    with p Inr show ?thesis by simp
  qed
qed

lemma Resolve_NewRecords:
  "Resolve \<lparr>records = NewRecords\<rparr> svc version =
     (None, Some \<lparr>Code = ServiceUnresolvable,
                  Message = ''The gRPC service '' @ svc @ '' is unresolvable''\<rparr>)"
  by (simp add: Resolve_def GetRecord_def NewRecords_def)

lemma NewStatic_of_failure:
  "isl (NewRecordsFromYAML osOpen decode parse file) \<Longrightarrow>
     NewStatic osOpen decode parse file = \<lparr>records = NewRecords\<rparr>"
  by (auto simp: NewStatic_def split: sum.splits)

section \<open>The stages of the client\<close>

lemmas stage_defs = Connect_def CloseConn_def newReflectionClient_def resolveService_def
  findMethodByName_def loadDescriptors_def unmarshalInputMessage_def marshalOutputMessage_def
  newStub_def invokeRPC_def

lemma run_stage_sticky: "err c = Some x \<Longrightarrow> run_stage b s c = c"
  by (cases s) (simp_all add: stage_defs Let_def)

lemma run_stages_sticky: "err c = Some x \<Longrightarrow> run_stages b ss c = c"
  by (induction ss) (simp_all add: run_stage_sticky)

lemma run_stages_append: "run_stages b (xs @ ys) c = run_stages b ys (run_stages b xs c)"
  by (induction xs arbitrary: c) simp_all

section \<open>The example inputs, evaluated\<close>

lemma example_registry_eq:
  "example_registry =
     \<lparr>m = [(''a'', [(''v1'', [Some ''http://a.v1'']), (''v2'', [Some ''http://a.v2''])]),
           (''b'', [(''v1'', [Some ''http://b.v1''])])]\<rparr>"
  by (simp add: example_registry_def after_calls_def SetRecord_def NewRecords_def Let_def
      versionsAt_def entriesAt_def)

lemma twice_registered_eq:
  "twice_registered = \<lparr>m = [(''a'', [(''v1'', [Some ''http://a.v1'', Some ''http://a.v1''])])]\<rparr>"
  by (simp add: twice_registered_def after_calls_def SetRecord_def NewRecords_def Let_def
      versionsAt_def entriesAt_def)

lemma addresses_example_registry:
  "addresses example_registry ''a'' ''v1'' = [Some ''http://a.v1'']"
  "addresses example_registry ''a'' ''v2'' = [Some ''http://a.v2'']"
  "addresses example_registry ''a'' ''v3'' = []"
  "addresses example_registry ''b'' ''v1'' = [Some ''http://b.v1'']"
  "addresses example_registry ''c'' [] = []"
  "addresses twice_registered ''a'' ''v1'' = [Some ''http://a.v1'', Some ''http://a.v1'']"
  "versionsAt (m example_registry) ''c'' = []"
  by (simp_all add: addresses_def versionsAt_def entriesAt_def example_registry_eq twice_registered_eq)

lemma lookups_example_registry:
  "map_of (m example_registry) ''a'' = Some [(''v1'', [Some ''http://a.v1'']), (''v2'', [Some ''http://a.v2''])]"
  "map_of (m example_registry) ''b'' = Some [(''v1'', [Some ''http://b.v1''])]"
  "map_of (m example_registry) ''c'' = None"
  "map_of (m twice_registered) ''a'' = Some [(''v1'', [Some ''http://a.v1'', Some ''http://a.v1''])]"
  "map_of (m twice_registered) ''b'' = None"
  by (simp_all add: example_registry_eq twice_registered_eq)

lemma after_failed_reflection_eq:
  "after_failed_reflection =
    \<lparr>clientConn = Some 1, reflectionClient = Some 1, serviceDescriptor = None,
     methodDescriptor = Some 0, InputMessage = Some [],
     OutputMessage = Some [], stub = Some 0,
     err = Some ''service not found'',
     trace =
      [NewClientConnCall 0 ''echo:5000'', NewReflectionClientCall (Some 1),
       ResolveServiceCall (Some 1) ''Echo'']\<rparr>"
  by (simp add: after_failed_reflection_def no_reflection_backend_def echo_backend_def NewClient_def
      stage_defs Let_def)

lemma connected_fields:
  "err (Connect echo_backend 0 ''echo:5000'' NewClient) = None"
  "clientConn (Connect echo_backend 0 ''echo:5000'' NewClient) = Some 1"
  "trace (Connect echo_backend 0 ''echo:5000'' NewClient) = [NewClientConnCall 0 ''echo:5000'']"
  "clientConn_close echo_backend cc = None"
  by (simp_all add: Connect_def echo_backend_def NewClient_def)

lemma example_String_Some [simp]: "example_String (Some s) = s"
  by (simp add: example_String_def)

lemma no_nil_example_registry: "no_nil_address example_registry"
  by (simp add: no_nil_address_def example_registry_eq)

section \<open>The two results of GetRecord\<close>

lemma GetRecord_not_both:
  "snd (GetRecord r svc version) \<noteq> None \<Longrightarrow> fst (GetRecord r svc version) = None"
  by (auto simp: GetRecord_def getVersion_def split: option.splits list.splits if_splits)

lemma single_entry_not_nil: "None \<notin> set entries \<Longrightarrow> length entries = 1 \<Longrightarrow> entries ! 0 \<noteq> None"
  by (cases entries) auto

lemma getVersion_no_nil:
  assumes "list_all (\<lambda>(version, entries). None \<notin> set entries) vs"
  shows "(fst (getVersion vs svc version) \<noteq> None) = (snd (getVersion vs svc version) = None)"
proof (cases "map_of vs version")
  case None
  then show ?thesis by (simp add: getVersion_def)
next
  case (Some entries)
  with assms have "None \<notin> set entries"
    by (auto dest: list_all_map_of)
  with Some show ?thesis
    using single_entry_not_nil[of entries] by (auto simp: getVersion_def)
qed

lemma GetRecord_no_nil:
  assumes "no_nil_address r"
  shows "(fst (GetRecord r svc version) \<noteq> None) = (snd (GetRecord r svc version) = None)"
proof (cases "map_of (m r) svc")
  case None
  then show ?thesis by (simp add: GetRecord_def)
next
  case (Some vs)
  with assms have nn: "list_all (\<lambda>(version, entries). None \<notin> set entries) vs"
    unfolding no_nil_address_def by (auto dest: list_all_map_of)
  show ?thesis
  proof (cases "version = [] \<and> length vs = 1")
    case True
    then obtain v entries where vs: "vs = [(v, entries)]"
      by (cases vs) auto
    with nn have "None \<notin> set entries" by simp
    with Some True vs show ?thesis
      using single_entry_not_nil[of entries] by (auto simp: GetRecord_def)
  next
    case False
    with Some show ?thesis
      using getVersion_no_nil[OF nn, of svc version]
      by (auto simp: GetRecord_def)
  qed
qed

lemma Resolve_results:
  "fst (Resolve l svc version) = (if snd (GetRecord (records l) svc version) = None
                                  then fst (GetRecord (records l) svc version) else None)"
  "snd (Resolve l svc version) = snd (GetRecord (records l) svc version)"
  by (cases "GetRecord (records l) svc version"; auto simp: Resolve_def split: option.splits)+

subsection \<open>Registries without a nil address\<close>

lemma no_nil_NewRecords: "no_nil_address NewRecords"
  by (simp add: no_nil_address_def NewRecords_def)

lemma no_nil_ClearRecords: "no_nil_address (ClearRecords r)"
  by (simp add: no_nil_address_def ClearRecords_def)

lemma no_nil_versionsAt:
  assumes "no_nil_address r"
  shows "list_all (\<lambda>(version, entries). None \<notin> set entries) (versionsAt (m r) svc)"
proof (cases "map_of (m r) svc")
  case None
  then show ?thesis by (simp add: versionsAt_def)
next
  case (Some vs)
  with assms show ?thesis
    unfolding no_nil_address_def by (auto simp: versionsAt_def dest: list_all_map_of)
qed

lemma no_nil_addresses:
  assumes "no_nil_address r"
  shows "None \<notin> set (addresses r svc version)"
proof (cases "map_of (versionsAt (m r) svc) version")
  case None
  then show ?thesis by (simp add: addresses_def entriesAt_def)
next
  case (Some entries)
  with no_nil_versionsAt[OF assms, of svc] show ?thesis
    by (auto simp: addresses_def entriesAt_def dest: list_all_map_of)
qed

lemma no_nil_SetRecord:
  assumes "no_nil_address r"
  shows "no_nil_address (snd (SetRecord r svc version (Some u)))"
proof -
  let ?vs = "AList.update version (addresses r svc version @ [Some u]) (versionsAt (m r) svc)"
  have "list_all (\<lambda>(version, entries). None \<notin> set entries) ?vs"
    using no_nil_addresses[OF assms, of svc version]
    by (simp add: list_all_update no_nil_versionsAt[OF assms])
  with assms show ?thesis
    unfolding no_nil_address_def SetRecord_m by (simp add: list_all_update)
qed

lemma no_nil_RemoveRecord:
  assumes "no_nil_address r"
  shows "no_nil_address (RemoveRecord str r svc version u)"
proof (cases "map_of (m r) svc")
  case None
  with assms show ?thesis by (simp add: RemoveRecord_unknown)
next
  case (Some vs)
  note vs = this
  then have nvs: "list_all (\<lambda>(version, entries). None \<notin> set entries) vs"
    using no_nil_versionsAt[OF assms, of svc] by (simp add: versionsAt_def)
  show ?thesis
  proof (cases "map_of vs version")
    case None
    with vs assms show ?thesis by (simp add: RemoveRecord_unknown versionsAt_def)
  next
    case (Some entries)
    with nvs have "None \<notin> set entries"
      by (auto dest: list_all_map_of)
    then have "None \<notin> set (filter (\<lambda>e. str e \<noteq> str u) entries)" by simp
    with assms nvs show ?thesis
      unfolding no_nil_address_def RemoveRecord_m[OF vs Some] Let_def
      by (simp add: list_all_update list_all_delete)
  qed
qed

text \<open>\<^verbatim>\<open>url.Parse\<close> returns a pointer that is not nil when it returns no error.\<close>

lemma setVersions_no_nil:
  assumes "\<And>rawurl. parse rawurl \<noteq> Inr None"
  shows "no_nil_address r \<Longrightarrow> setVersions parse r service vs = Inr r' \<Longrightarrow> no_nil_address r'"
proof (induction vs arbitrary: r)
  case Nil
  then show ?case by simp
next
  case (Cons p vs)
  obtain version rawurl where p: "p = (version, rawurl)" by (cases p)
  show ?case
  proof (cases "parse rawurl")
    case (Inl e)
    with Cons.prems p show ?thesis by simp
  next
    case (Inr u)
    with assms[of rawurl] obtain a where u: "u = Some a" by (cases u) auto
    from Cons.prems p Inr
    have "setVersions parse (snd (SetRecord r service version u)) service vs = Inr r'"
      by simp
    moreover have "no_nil_address (snd (SetRecord r service version u))"
      unfolding u using Cons.prems(1) by (rule no_nil_SetRecord)
    ultimately show ?thesis by (rule Cons.IH[rotated])
  qed
qed

lemma setServices_no_nil:
  assumes "\<And>rawurl. parse rawurl \<noteq> Inr None"
  shows "no_nil_address r \<Longrightarrow> setServices parse r raw = Inr r' \<Longrightarrow> no_nil_address r'"
proof (induction raw arbitrary: r)
  case Nil
  then show ?case by simp
next
  case (Cons p raw)
  obtain service vs where p: "p = (service, vs)" by (cases p)
  show ?case
  proof (cases "setVersions parse r service vs")
    case (Inl e)
    with Cons.prems p show ?thesis by simp
  next
    case (Inr r1)
    with Cons.prems p have "setServices parse r1 raw = Inr r'" by simp
    moreover have "no_nil_address r1"
      using assms Cons.prems(1) Inr by (rule setVersions_no_nil)
    ultimately show ?thesis by (rule Cons.IH[rotated])
  qed
qed

lemma NewStatic_no_nil:
  assumes "\<And>rawurl. parse rawurl \<noteq> Inr None"
  shows "no_nil_address (records (NewStatic osOpen decode parse mappingFile))"
proof (cases "NewRecordsFromYAML osOpen decode parse mappingFile")
  case (Inl e)
  then show ?thesis
    by (simp add: NewStatic_def no_nil_NewRecords)
next
  case (Inr r)
  then obtain raw where s: "setServices parse NewRecords raw = Inr r"
    by (auto simp: NewRecordsFromYAML_def split: sum.splits)
  have "no_nil_address r"
    using assms no_nil_NewRecords s by (rule setServices_no_nil)
  with Inr show ?thesis
    by (simp add: NewStatic_def)
qed

section \<open>The claims about the dynamic client\<close>

text \<open>
  C1. The claim: when every stage succeeds, \<open>Call\<close> returns the JSON encoding of the output
  message of the invocation, not of the input message. \<open>marshalOutputMessage\<close> marshals
  \<open>InputMessage\<close>. On the backend where every call succeeds and the remote method answers
  \<open>pong\<close>, the call with the request \<open>ping\<close> returns the bytes \<open>ping\<close> and no error, while
  the output message it has stored is \<open>pong\<close>, whose encoding is \<open>pong\<close>.
\<close>

theorem Call_encodes_InputMessage:
  "fst (Call echo_backend 0 ''Echo'' ''Ping'' ''ping'' [] (Connect echo_backend 0 ''echo:5000'' NewClient))
     = (Some ''ping'', None)
   \<and> OutputMessage (snd (Call echo_backend 0 ''Echo'' ''Ping'' ''ping'' []
        (Connect echo_backend 0 ''echo:5000'' NewClient))) = Some ''pong''
   \<and> message_marshalJSON echo_backend (Some ''pong'') = (Some ''pong'', None)"
  by (simp add: Call_def echo_backend_def NewClient_def stage_defs Let_def)

text \<open>
  C2, as the claim states it, fails: after a dial that succeeded and a reflection request
  that failed, the client holds the connection 1 and the sticky error, and \<open>CloseConn\<close>
  makes no call of \<open>close\<close>.
\<close>

theorem CloseConn_skipped_after_error:
  "clientConn after_failed_reflection = Some 1
   \<and> err after_failed_reflection = Some ''service not found''
   \<and> NewClientConnCall 0 ''echo:5000'' \<in> set (trace after_failed_reflection)
   \<and> CloseCall (Some 1) \<notin> set (trace (CloseConn no_reflection_backend after_failed_reflection))"
  by (simp add: after_failed_reflection_eq CloseConn_def)

text \<open>
  C2, amended: \<open>CloseConn\<close> closes the connection of the client exactly when the sticky
  error is nil, and then leaves the result of \<open>close\<close> as the error; when a stage has set the
  sticky error, \<open>CloseConn\<close> returns at once, closes nothing and leaves the client as it is.
\<close>

theorem CloseConn_only_without_error:
  "(err c = None \<longrightarrow>
      trace (CloseConn b c) = trace c @ [CloseCall (clientConn c)]
      \<and> Err (CloseConn b c) = clientConn_close b (clientConn c))
   \<and> (err c \<noteq> None \<longrightarrow> CloseConn b c = c)"
  by (simp add: CloseConn_def Err_def)

theorem CloseConn_only_without_error_witness:
  "err (Connect echo_backend 0 ''echo:5000'' NewClient) = None
   \<and> trace (CloseConn echo_backend (Connect echo_backend 0 ''echo:5000'' NewClient))
       = [NewClientConnCall 0 ''echo:5000'', CloseCall (Some 1)]
   \<and> Err (CloseConn echo_backend (Connect echo_backend 0 ''echo:5000'' NewClient)) = None
   \<and> err after_failed_reflection \<noteq> None
   \<and> CloseConn no_reflection_backend after_failed_reflection = after_failed_reflection"
  using CloseConn_only_without_error[of "Connect echo_backend 0 ''echo:5000'' NewClient" echo_backend]
    CloseConn_only_without_error[of after_failed_reflection no_reflection_backend]
  by (simp add: connected_fields after_failed_reflection_eq)

text \<open>
  C3. Once the sticky error is set, whatever stages have run before, every further list of
  stages (\<open>Connect\<close>, \<open>resolveService\<close>, \<open>findMethodByName\<close>, \<open>loadDescriptors\<close>,
  \<open>unmarshalInputMessage\<close>, \<open>invokeRPC\<close>, \<open>marshalOutputMessage\<close>, \<open>CloseConn\<close>) leaves the
  client as it is: no field is written, no call is added to the trace, \<open>Err\<close> returns the
  error that was set first, and \<open>marshalOutputMessage\<close> returns nil. The step of
  \<open>loadDescriptors\<close> that makes the two messages is not one of these stages: it has no
  check of its own and follows \<open>resolveService\<close> and \<open>findMethodByName\<close> whatever they set.
\<close>

theorem sticky_error_short_circuits:
  assumes "err (run_stages b pre c) = Some x"
  shows "run_stages b (pre @ post) c = run_stages b pre c
         \<and> Err (run_stages b (pre @ post) c) = Some x
         \<and> marshalOutputMessage b (run_stages b pre c) = (None, run_stages b pre c)"
  using assms
  by (simp add: run_stages_append run_stages_sticky Err_def marshalOutputMessage_def)

theorem sticky_error_short_circuits_witness:
  "err (run_stages no_reflection_backend
          [StConnect 0 ''echo:5000'', StResolveService 0 ''Echo''] NewClient) = Some ''service not found''
   \<and> run_stages no_reflection_backend
        ([StConnect 0 ''echo:5000'', StResolveService 0 ''Echo''] @
         [StFindMethodByName ''Ping'', StUnmarshalInputMessage ''ping'', StInvokeRPC 0 [],
          StMarshalOutputMessage, StConnect 0 ''other:5000'', StCloseConn]) NewClient
       = after_failed_reflection
   \<and> Err (run_stages no_reflection_backend
        ([StConnect 0 ''echo:5000'', StResolveService 0 ''Echo''] @
         [StFindMethodByName ''Ping'', StUnmarshalInputMessage ''ping'', StInvokeRPC 0 [],
          StMarshalOutputMessage, StConnect 0 ''other:5000'', StCloseConn]) NewClient)
       = Some ''service not found''"
proof -
  have r: "run_stages no_reflection_backend
          [StConnect 0 ''echo:5000'', StResolveService 0 ''Echo''] NewClient = after_failed_reflection"
    by (simp add: after_failed_reflection_def)
  have h: "err (run_stages no_reflection_backend
          [StConnect 0 ''echo:5000'', StResolveService 0 ''Echo''] NewClient) = Some ''service not found''"
    unfolding r by (simp add: after_failed_reflection_eq)
  show ?thesis
    using h r sticky_error_short_circuits[OF h,
        of "[StFindMethodByName ''Ping'', StUnmarshalInputMessage ''ping'', StInvokeRPC 0 [],
          StMarshalOutputMessage, StConnect 0 ''other:5000'', StCloseConn]"]
    by (simp add: Err_def)
qed

section \<open>The claims about the registry\<close>

text \<open>
  C4. \<open>GetRecord\<close> returns the error \<open>ServiceUnresolvable\<close> for an unknown service and for a
  non-empty version that the known service does not have, \<open>VersionNotSpecified\<close> for the
  empty version when the service has more than one version, \<open>VersionUndecidable\<close> when the
  resolved version (the version given, or the only version of the service when none is
  given) has more than one address, and the address with no error when the resolved
  version has exactly one. The list \<open>vs\<close> holds each version of the service once in every
  registry that the calls of this package build, so its length is the number of versions.
\<close>

theorem GetRecord_cases:
  "(map_of (m r) svc = None \<longrightarrow>
      GetRecord r svc version =
        (None, Some \<lparr>Code = ServiceUnresolvable,
                     Message = ''The gRPC service '' @ svc @ '' is unresolvable''\<rparr>))
   \<and> (map_of (m r) svc = Some vs \<and> version \<noteq> [] \<and> map_of vs version = None \<longrightarrow>
      GetRecord r svc version =
        (None, Some \<lparr>Code = ServiceUnresolvable,
                     Message = ''Version '' @ version @ '' of the gRPC service '' @ svc @
                       '' is unresolvable''\<rparr>))
   \<and> (map_of (m r) svc = Some vs \<and> version = [] \<and> length vs > 1 \<longrightarrow>
      GetRecord r svc version =
        (None, Some \<lparr>Code = VersionNotSpecified,
                     Message = ''There are multiple version of the gRPC service '' @ svc @
                       '' available. You must specify one''\<rparr>))
   \<and> (map_of (m r) svc = Some vs \<and> length entries > 1
        \<and> (version \<noteq> [] \<and> map_of vs version = Some entries \<or> version = [] \<and> vs = [(v, entries)]) \<longrightarrow>
      GetRecord r svc version =
        (None, Some \<lparr>Code = VersionUndecidable,
                     Message = ''Multiple possible backends found for the gRPC service '' @ svc @
                       ''. Add annotations to distinguish versions''\<rparr>))
   \<and> (map_of (m r) svc = Some vs
        \<and> (version \<noteq> [] \<and> map_of vs version = Some [u] \<or> version = [] \<and> vs = [(v, [u])]) \<longrightarrow>
      GetRecord r svc version = (u, None))"
  by (auto simp: GetRecord_def getVersion_def)

theorem GetRecord_cases_witness:
  "GetRecord example_registry ''c'' [] =
     (None, Some \<lparr>Code = ServiceUnresolvable, Message = ''The gRPC service c is unresolvable''\<rparr>)
   \<and> GetRecord example_registry ''a'' ''v3'' =
     (None, Some \<lparr>Code = ServiceUnresolvable,
                  Message = ''Version v3 of the gRPC service a is unresolvable''\<rparr>)
   \<and> GetRecord example_registry ''a'' [] =
     (None, Some \<lparr>Code = VersionNotSpecified,
                  Message = ''There are multiple version of the gRPC service a available. You must specify one''\<rparr>)
   \<and> GetRecord twice_registered ''a'' ''v1'' =
     (None, Some \<lparr>Code = VersionUndecidable,
                  Message = ''Multiple possible backends found for the gRPC service a. Add annotations to distinguish versions''\<rparr>)
   \<and> GetRecord twice_registered ''a'' [] =
     (None, Some \<lparr>Code = VersionUndecidable,
                  Message = ''Multiple possible backends found for the gRPC service a. Add annotations to distinguish versions''\<rparr>)
   \<and> GetRecord example_registry ''a'' ''v1'' = (Some ''http://a.v1'', None)
   \<and> GetRecord example_registry ''b'' [] = (Some ''http://b.v1'', None)"
  using
    GetRecord_cases[where r = example_registry and svc = "''c''" and version = "[]" and vs = "[]"
      and entries = "[]" and v = "[]" and u = "None"]
    GetRecord_cases[where r = example_registry and svc = "''a''" and version = "''v3''"
      and vs = "[(''v1'', [Some ''http://a.v1'']), (''v2'', [Some ''http://a.v2''])]"
      and entries = "[]" and v = "[]" and u = "None"]
    GetRecord_cases[where r = example_registry and svc = "''a''" and version = "[]"
      and vs = "[(''v1'', [Some ''http://a.v1'']), (''v2'', [Some ''http://a.v2''])]"
      and entries = "[]" and v = "[]" and u = "None"]
    GetRecord_cases[where r = twice_registered and svc = "''a''" and version = "''v1''"
      and vs = "[(''v1'', [Some ''http://a.v1'', Some ''http://a.v1''])]"
      and entries = "[Some ''http://a.v1'', Some ''http://a.v1'']" and v = "[]" and u = "None"]
    GetRecord_cases[where r = twice_registered and svc = "''a''" and version = "[]"
      and vs = "[(''v1'', [Some ''http://a.v1'', Some ''http://a.v1''])]"
      and entries = "[Some ''http://a.v1'', Some ''http://a.v1'']" and v = "''v1''" and u = "None"]
    GetRecord_cases[where r = example_registry and svc = "''a''" and version = "''v1''"
      and vs = "[(''v1'', [Some ''http://a.v1'']), (''v2'', [Some ''http://a.v2''])]"
      and entries = "[]" and v = "[]" and u = "(Some ''http://a.v1'')"]
    GetRecord_cases[where r = example_registry and svc = "''b''" and version = "[]"
      and vs = "[(''v1'', [Some ''http://b.v1''])]"
      and entries = "[]" and v = "''v1''" and u = "(Some ''http://b.v1'')"]
  by (simp add: example_registry_eq twice_registered_eq)

text \<open>
  C5, as the claim states it, fails: when the address is registered a second time for the
  same service and version, \<open>GetRecord\<close> finds two addresses and returns the error
  \<open>VersionUndecidable\<close> instead of the address.
\<close>

theorem SetRecord_twice_then_GetRecord:
  "GetRecord
     (snd (SetRecord (snd (SetRecord NewRecords ''a'' ''v1'' (Some ''http://a.v1''))) ''a'' ''v1'' (Some ''http://a.v1'')))
     ''a'' ''v1''
   \<noteq> (Some ''http://a.v1'', None)"
  by (simp add: GetRecord_def getVersion_def SetRecord_def NewRecords_def Let_def
      versionsAt_def entriesAt_def)

text \<open>
  C5, amended: if no address is stored for (service, version) before the call and, when the
  version is the empty string, the service has no version at all before the call, then
  after \<open>SetRecord(service, version, address)\<close> the call \<open>GetRecord(service, version)\<close> returns
  exactly that address with no error. If an address is already stored for the pair and
  the version is not empty, \<open>GetRecord\<close> returns the error \<open>VersionUndecidable\<close> after the
  call.
\<close>

theorem SetRecord_then_GetRecord:
  "(addresses r svc version = [] \<and> (version = [] \<longrightarrow> versionsAt (m r) svc = []) \<longrightarrow>
      GetRecord (snd (SetRecord r svc version u)) svc version = (u, None))
   \<and> (addresses r svc version \<noteq> [] \<and> version \<noteq> [] \<longrightarrow>
      GetRecord (snd (SetRecord r svc version u)) svc version =
        (None, Some \<lparr>Code = VersionUndecidable,
                     Message = ''Multiple possible backends found for the gRPC service '' @ svc @
                       ''. Add annotations to distinguish versions''\<rparr>))"
proof (intro conjI impI)
  assume a: "addresses r svc version = [] \<and> (version = [] \<longrightarrow> versionsAt (m r) svc = [])"
  show "GetRecord (snd (SetRecord r svc version u)) svc version = (u, None)"
  proof (cases "version = []")
    case True
    with a show ?thesis
      by (simp add: GetRecord_def map_of_SetRecord_svc)
  next
    case False
    with a show ?thesis
      by (simp add: GetRecord_def getVersion_def map_of_SetRecord_svc update_conv')
  qed
next
  assume a: "addresses r svc version \<noteq> [] \<and> version \<noteq> []"
  then have "length (addresses r svc version @ [u]) \<noteq> 1" by simp
  with a show "GetRecord (snd (SetRecord r svc version u)) svc version =
        (None, Some \<lparr>Code = VersionUndecidable,
                     Message = ''Multiple possible backends found for the gRPC service '' @ svc @
                       ''. Add annotations to distinguish versions''\<rparr>)"
    by (simp add: GetRecord_def getVersion_def map_of_SetRecord_svc update_conv' del: length_append)
qed

theorem SetRecord_then_GetRecord_witness:
  "addresses example_registry ''a'' ''v3'' = []
   \<and> GetRecord (snd (SetRecord example_registry ''a'' ''v3'' (Some ''http://a.v3''))) ''a'' ''v3''
       = (Some ''http://a.v3'', None)
   \<and> addresses example_registry ''c'' [] = [] \<and> versionsAt (m example_registry) ''c'' = []
   \<and> GetRecord (snd (SetRecord example_registry ''c'' [] (Some ''http://c''))) ''c'' []
       = (Some ''http://c'', None)
   \<and> addresses example_registry ''a'' ''v1'' \<noteq> []
   \<and> GetRecord (snd (SetRecord example_registry ''a'' ''v1'' (Some ''http://a.v1''))) ''a'' ''v1''
       = (None, Some \<lparr>Code = VersionUndecidable,
                    Message = ''Multiple possible backends found for the gRPC service a. Add annotations to distinguish versions''\<rparr>)"
  using
    SetRecord_then_GetRecord[of example_registry "''a''" "''v3''" "(Some ''http://a.v3'')"]
    SetRecord_then_GetRecord[of example_registry "''c''" "[]" "(Some ''http://c'')"]
    SetRecord_then_GetRecord[of example_registry "''a''" "''v1''" "(Some ''http://a.v1'')"]
  by (simp add: addresses_example_registry)

text \<open>
  C6. \<open>SetRecord\<close> returns true and appends the address to the end of the list of the
  (service, version) pair; the service and the version are in the registry afterwards,
  whether they were before or not; the lists of the other pairs are as before; a second
  call with the same address leaves the address twice at the end of the list.
\<close>

theorem SetRecord_appends:
  "fst (SetRecord r svc version u) = True
   \<and> addresses (snd (SetRecord r svc version u)) svc version = addresses r svc version @ [u]
   \<and> map_of (m (snd (SetRecord r svc version u))) svc \<noteq> None
   \<and> map_of (versionsAt (m (snd (SetRecord r svc version u))) svc) version
       = Some (addresses r svc version @ [u])
   \<and> addresses (snd (SetRecord (snd (SetRecord r svc version u)) svc version u)) svc version
       = addresses r svc version @ [u, u]
   \<and> ((svc', version') \<noteq> (svc, version) \<longrightarrow>
        addresses (snd (SetRecord r svc version u)) svc' version' = addresses r svc' version')"
proof -
  have "fst (SetRecord r svc version u) = True"
    by (simp add: SetRecord_def Let_def)
  moreover have "map_of (m (snd (SetRecord r svc version u))) svc \<noteq> None"
    by (simp add: SetRecord_m update_conv')
  moreover have "map_of (versionsAt (m (snd (SetRecord r svc version u))) svc) version
       = Some (addresses r svc version @ [u])"
    by (simp add: SetRecord_m update_conv')
  ultimately show ?thesis
    by (simp add: addresses_SetRecord)
qed

theorem SetRecord_appends_witness:
  "fst (SetRecord example_registry ''a'' ''v1'' (Some ''http://a.v1'')) = True
   \<and> addresses (snd (SetRecord example_registry ''a'' ''v1'' (Some ''http://a.v1''))) ''a'' ''v1''
       = [Some ''http://a.v1'', Some ''http://a.v1'']
   \<and> addresses (snd (SetRecord (snd (SetRecord example_registry ''a'' ''v1'' (Some ''http://a.v1'')))
        ''a'' ''v1'' (Some ''http://a.v1''))) ''a'' ''v1''
       = [Some ''http://a.v1'', Some ''http://a.v1'', Some ''http://a.v1'']
   \<and> (''b'', ''v1'') \<noteq> (''a'', ''v1'')
   \<and> addresses (snd (SetRecord example_registry ''a'' ''v1'' (Some ''http://a.v1''))) ''b'' ''v1''
       = [Some ''http://b.v1'']
   \<and> map_of (versionsAt (m (snd (SetRecord example_registry ''c'' [] (Some ''http://c'')))) ''c'') []
       = Some [Some ''http://c'']"
  using
    SetRecord_appends[of example_registry "''a''" "''v1''" "(Some ''http://a.v1'')" "''b''" "''v1''"]
    SetRecord_appends[of example_registry "''c''" "[]" "(Some ''http://c'')" "''b''" "''v1''"]
  by (simp add: addresses_example_registry)



text \<open>
  C8. In the registry that any list of calls of \<open>SetRecord\<close>, \<open>RemoveRecord\<close> and
  \<open>ClearRecords\<close> leaves, starting from the registry of \<open>NewRecords\<close>, every service that is
  present has at least one version and every version that is present has at least one
  address.
\<close>

theorem no_empty_entry_persists:
  "(map_of (m (after_calls str cs)) svc = Some vs \<longrightarrow> vs \<noteq> [])
   \<and> (map_of (m (after_calls str cs)) svc = Some vs \<and> map_of vs version = Some entries \<longrightarrow>
        entries \<noteq> [])"
proof -
  have "filled vs" if "map_of (m (after_calls str cs)) svc = Some vs"
    using pruned_after_calls[of str cs] that
    unfolding pruned_def by (auto dest: list_all_map_of)
  then show ?thesis
    unfolding filled_def by (auto dest: list_all_map_of)
qed

theorem no_empty_entry_persists_witness:
  "map_of (m (after_calls example_String
       [CallSetRecord ''a'' ''v1'' (Some ''http://a.v1''), CallSetRecord ''b'' ''v1'' (Some ''http://b.v1''),
        CallClearRecords, CallSetRecord ''a'' ''v1'' (Some ''http://a.v1''),
        CallSetRecord ''a'' ''v2'' (Some ''http://a.v2''), CallSetRecord ''b'' ''v1'' (Some ''http://b.v1''),
        CallRemoveRecord ''a'' ''v1'' (Some ''http://a.v1''), CallRemoveRecord ''b'' ''v1'' (Some ''http://b.v1'')])) ''a''
     = Some [(''v2'', [Some ''http://a.v2''])]
   \<and> map_of [(''v2'', [Some ''http://a.v2''])] ''v2'' = Some [Some ''http://a.v2'']
   \<and> [(''v2'', [Some ''http://a.v2''])] \<noteq> [] \<and> [Some ''http://a.v2''] \<noteq> []"
proof -
  have e: "after_calls example_String
       [CallSetRecord ''a'' ''v1'' (Some ''http://a.v1''), CallSetRecord ''b'' ''v1'' (Some ''http://b.v1''),
        CallClearRecords, CallSetRecord ''a'' ''v1'' (Some ''http://a.v1''),
        CallSetRecord ''a'' ''v2'' (Some ''http://a.v2''), CallSetRecord ''b'' ''v1'' (Some ''http://b.v1''),
        CallRemoveRecord ''a'' ''v1'' (Some ''http://a.v1''), CallRemoveRecord ''b'' ''v1'' (Some ''http://b.v1'')]
     = \<lparr>m = [(''a'', [(''v2'', [Some ''http://a.v2''])])]\<rparr>"
    by (simp add: after_calls_def SetRecord_def RemoveRecord_def ClearRecords_def NewRecords_def
        Let_def versionsAt_def entriesAt_def)
  show ?thesis
    using no_empty_entry_persists[where str = example_String and svc = "''a''" and version = "''v2''"
        and vs = "[(''v2'', [Some ''http://a.v2''])]" and entries = "[Some ''http://a.v2'']"
        and cs = "[CallSetRecord ''a'' ''v1'' (Some ''http://a.v1''), CallSetRecord ''b'' ''v1'' (Some ''http://b.v1''),
        CallClearRecords, CallSetRecord ''a'' ''v1'' (Some ''http://a.v1''),
        CallSetRecord ''a'' ''v2'' (Some ''http://a.v2''), CallSetRecord ''b'' ''v1'' (Some ''http://b.v1''),
        CallRemoveRecord ''a'' ''v1'' (Some ''http://a.v1''), CallRemoveRecord ''b'' ''v1'' (Some ''http://b.v1'')]"]
    by (simp add: e)
qed

text \<open>
  C9. \<open>NewStatic\<close> always returns a resolver. When the mapping file cannot be opened, when
  it cannot be decoded, or when one of its addresses does not parse, the resolver holds
  the empty registry of \<open>NewRecords\<close>, with none of the entries that were set before the
  failure, and every call of \<open>Resolve\<close> on it returns no address and the error
  \<open>ServiceUnresolvable\<close>.
\<close>

theorem NewStatic_failed_load:
  "(osOpen mappingFile = Inl e
      \<or> (osOpen mappingFile = Inr f \<and> decode f = Inl e)
      \<or> (osOpen mappingFile = Inr f \<and> decode f = Inr raw
           \<and> (\<exists>(service, vs) \<in> set raw. \<exists>(version, rawurl) \<in> set vs. isl (parse rawurl))))
    \<longrightarrow> records (NewStatic osOpen decode parse mappingFile) = NewRecords
        \<and> (\<forall>svc version.
              Resolve (NewStatic osOpen decode parse mappingFile) svc version =
                (None, Some \<lparr>Code = ServiceUnresolvable,
                             Message = ''The gRPC service '' @ svc @ '' is unresolvable''\<rparr>))"
proof
  assume a: "osOpen mappingFile = Inl e
      \<or> (osOpen mappingFile = Inr f \<and> decode f = Inl e)
      \<or> (osOpen mappingFile = Inr f \<and> decode f = Inr raw
           \<and> (\<exists>(service, vs) \<in> set raw. \<exists>(version, rawurl) \<in> set vs. isl (parse rawurl)))"
  have "isl (NewRecordsFromYAML osOpen decode parse mappingFile)"
    using a by (auto simp: NewRecordsFromYAML_def intro: setServices_fails)
  then have "NewStatic osOpen decode parse mappingFile = \<lparr>records = NewRecords\<rparr>"
    by (rule NewStatic_of_failure)
  then show "records (NewStatic osOpen decode parse mappingFile) = NewRecords
        \<and> (\<forall>svc version.
              Resolve (NewStatic osOpen decode parse mappingFile) svc version =
                (None, Some \<lparr>Code = ServiceUnresolvable,
                             Message = ''The gRPC service '' @ svc @ '' is unresolvable''\<rparr>))"
    by (simp add: Resolve_NewRecords)
qed

theorem NewStatic_failed_load_witness:
  "example_osOpen ''does-not-exist.yaml'' = Inl ''no such file or directory''
   \<and> records (NewStatic example_osOpen example_decode example_parse ''does-not-exist.yaml'') = NewRecords
   \<and> example_decode ''invalid.yaml'' = Inl ''cannot unmarshal''
   \<and> records (NewStatic example_osOpen example_decode example_parse ''invalid.yaml'') = NewRecords
   \<and> example_parse ''http://a.v1'' = Inr (Some ''http://a.v1'')
   \<and> example_parse '':a.v2'' = Inl ''missing protocol scheme''
   \<and> records (NewStatic example_osOpen example_decode example_parse ''badurl.yaml'') = NewRecords
   \<and> Resolve (NewStatic example_osOpen example_decode example_parse ''badurl.yaml'') ''a'' ''v1''
       = (None, Some \<lparr>Code = ServiceUnresolvable, Message = ''The gRPC service a is unresolvable''\<rparr>)"
  using
    NewStatic_failed_load[where osOpen = example_osOpen and decode = example_decode
      and parse = example_parse and mappingFile = "''does-not-exist.yaml''"
      and e = "''no such file or directory''" and f = "[]" and raw = "[]"]
    NewStatic_failed_load[where osOpen = example_osOpen and decode = example_decode
      and parse = example_parse and mappingFile = "''invalid.yaml''"
      and e = "''cannot unmarshal''" and f = "''invalid.yaml''" and raw = "[]"]
    NewStatic_failed_load[where osOpen = example_osOpen and decode = example_decode
      and parse = example_parse and mappingFile = "''badurl.yaml''"
      and e = "[]" and f = "''badurl.yaml''"
      and raw = "[(''a'', [(''v1'', ''http://a.v1''), (''v2'', '':a.v2'')])]"]
  by (simp add: example_osOpen_def example_decode_def example_parse_def)

text \<open>
  C10, as the claim states it, fails: \<open>SetRecord\<close> stores a nil address like any other, and
  \<open>GetRecord\<close> then returns the only entry of the version, the nil address, with a nil
  error; \<open>Resolve\<close> passes both on.
\<close>

theorem GetRecord_nil_address_nil_error:
  "GetRecord (snd (SetRecord (NewRecords :: string option Records) ''a'' ''v1'' None)) ''a'' ''v1''
     = (None, None)
   \<and> Resolve \<lparr>records = snd (SetRecord (NewRecords :: string option Records) ''a'' ''v1'' None)\<rparr>
        ''a'' ''v1''
     = (None, None)"
  by (simp add: Resolve_def GetRecord_def getVersion_def SetRecord_def NewRecords_def Let_def
      versionsAt_def entriesAt_def)

text \<open>
  C10, amended: for every registry state and every (service, version) pair, neither
  \<open>GetRecord\<close> nor \<open>Resolve\<close> of a static resolver returns both an address and an error; for
  every registry state in which no stored address is nil, each of them returns a non-nil
  address exactly when it returns a nil error.
\<close>

theorem address_iff_no_error_without_nil:
  "(snd (GetRecord r svc version) \<noteq> None \<longrightarrow> fst (GetRecord r svc version) = None)
   \<and> (snd (Resolve l svc version) \<noteq> None \<longrightarrow> fst (Resolve l svc version) = None)
   \<and> (no_nil_address r \<longrightarrow>
        (fst (GetRecord r svc version) \<noteq> None) = (snd (GetRecord r svc version) = None))
   \<and> (no_nil_address (records l) \<longrightarrow>
        (fst (Resolve l svc version) \<noteq> None) = (snd (Resolve l svc version) = None))"
proof -
  have "no_nil_address (records l) \<longrightarrow>
        (fst (Resolve l svc version) \<noteq> None) = (snd (Resolve l svc version) = None)"
    using GetRecord_no_nil[of "records l" svc version]
    by (auto simp: Resolve_results)
  then show ?thesis
    using GetRecord_not_both[of r svc version] GetRecord_no_nil[of r svc version]
    by (simp add: Resolve_results)
qed

theorem address_iff_no_error_without_nil_witness:
  "no_nil_address example_registry
   \<and> fst (GetRecord example_registry ''a'' ''v1'') = Some ''http://a.v1''
   \<and> snd (GetRecord example_registry ''a'' ''v1'') = None
   \<and> snd (GetRecord example_registry ''a'' []) \<noteq> None
   \<and> fst (GetRecord example_registry ''a'' []) = None
   \<and> fst (Resolve \<lparr>records = example_registry\<rparr> ''b'' []) = Some ''http://b.v1''
   \<and> snd (Resolve \<lparr>records = example_registry\<rparr> ''b'' []) = None
   \<and> snd (Resolve \<lparr>records = example_registry\<rparr> ''c'' ''v1'') \<noteq> None
   \<and> fst (Resolve \<lparr>records = example_registry\<rparr> ''c'' ''v1'') = None"
proof -
  have g: "fst (GetRecord example_registry ''a'' ''v1'') = Some ''http://a.v1''"
    by (simp add: GetRecord_def getVersion_def lookups_example_registry)
  have e: "snd (GetRecord example_registry ''a'' []) \<noteq> None"
    by (simp add: GetRecord_def lookups_example_registry)
  have s: "fst (Resolve \<lparr>records = example_registry\<rparr> ''b'' []) = Some ''http://b.v1''"
    by (simp add: Resolve_def GetRecord_def lookups_example_registry)
  have t: "snd (Resolve \<lparr>records = example_registry\<rparr> ''c'' ''v1'') \<noteq> None"
    by (simp add: Resolve_def GetRecord_def lookups_example_registry)
  show ?thesis
    using g e s t no_nil_example_registry
      address_iff_no_error_without_nil[of example_registry "''a''" "''v1''"
        "\<lparr>records = example_registry\<rparr>"]
      address_iff_no_error_without_nil[of example_registry "''a''" "[]"
        "\<lparr>records = example_registry\<rparr>"]
      address_iff_no_error_without_nil[where r = example_registry and svc = "''b''" and version = "[]"
        and l = "\<lparr>records = example_registry\<rparr>"]
      address_iff_no_error_without_nil[where r = example_registry and svc = "''c''" and version = "''v1''"
        and l = "\<lparr>records = example_registry\<rparr>"]
    by simp
qed

end
